theory Spec2Isabelle
  imports Complex_Main "HOL-Library.Word"
begin

section \<open>Python values used by the named pipe helper\<close>

text \<open>
  A Python \<open>str\<close> is a sequence of Unicode code points and a \<open>bytes\<close> object a
  sequence of octets. \<open>py\<close> turns an ASCII literal into a Python string.
\<close>

type_synonym pystr = "nat list"
type_synonym pybytes = "8 word list"

definition py :: "string \<Rightarrow> pystr" where
  "py s = map of_char s"

subsection \<open>The strict UTF-8 codec: \<open>str.encode("utf-8")\<close> and \<open>bytes.decode("utf-8")\<close>\<close>

definition is_surrogate :: "nat \<Rightarrow> bool" where
  "is_surrogate c = (0xD800 \<le> c \<and> c \<le> 0xDFFF)"

text \<open>
  One code point to its octets. A lone surrogate is refused (UnicodeEncodeError), and so
  is a number beyond U+10FFFF, which is no character of a Python string.
\<close>

definition encode_code_point :: "nat \<Rightarrow> nat list option" where
  "encode_code_point c =
     (if c < 0x80 then Some [c]
      else if c < 0x800 then Some [0xC0 + c div 64, 0x80 + c mod 64]
      else if c < 0x10000 then
        (if is_surrogate c then None
         else Some [0xE0 + c div 4096, 0x80 + (c div 64) mod 64, 0x80 + c mod 64])
      else if c < 0x110000 then
        Some [0xF0 + c div 262144, 0x80 + (c div 4096) mod 64,
              0x80 + (c div 64) mod 64, 0x80 + c mod 64]
      else None)"

fun encode_units :: "pystr \<Rightarrow> nat list option" where
  "encode_units [] = Some []"
| "encode_units (c # cs) =
     (case encode_code_point c of
        None \<Rightarrow> None
      | Some bs \<Rightarrow> (case encode_units cs of None \<Rightarrow> None | Some r \<Rightarrow> Some (bs @ r)))"

definition utf8_encode :: "pystr \<Rightarrow> pybytes option" where
  "utf8_encode s = map_option (map of_nat) (encode_units s)"

definition is_cont :: "nat \<Rightarrow> bool" where
  "is_cont b = (0x80 \<le> b \<and> b < 0xC0)"

text \<open>
  Decoding is strict: a truncated sequence, a stray continuation octet, an overlong form,
  an encoded surrogate and a value beyond U+10FFFF are all errors (UnicodeDecodeError).
\<close>

fun decode_units :: "nat list \<Rightarrow> pystr option" where
  "decode_units [] = Some []"
| "decode_units (b0 # bs) =
     (if b0 < 0x80 then map_option ((#) b0) (decode_units bs)
      else if 0xC2 \<le> b0 \<and> b0 < 0xE0 then
        (case bs of
           b1 # r \<Rightarrow>
             if is_cont b1
             then map_option ((#) ((b0 - 0xC0) * 64 + (b1 - 0x80))) (decode_units r)
             else None
         | _ \<Rightarrow> None)
      else if 0xE0 \<le> b0 \<and> b0 < 0xF0 then
        (case bs of
           b1 # b2 # r \<Rightarrow>
             (let c = (b0 - 0xE0) * 4096 + (b1 - 0x80) * 64 + (b2 - 0x80) in
              if is_cont b1 \<and> is_cont b2 \<and> 0x800 \<le> c \<and> \<not> is_surrogate c
              then map_option ((#) c) (decode_units r)
              else None)
         | _ \<Rightarrow> None)
      else if 0xF0 \<le> b0 \<and> b0 < 0xF5 then
        (case bs of
           b1 # b2 # b3 # r \<Rightarrow>
             (let c = (b0 - 0xF0) * 262144 + (b1 - 0x80) * 4096
                      + (b2 - 0x80) * 64 + (b3 - 0x80) in
              if is_cont b1 \<and> is_cont b2 \<and> is_cont b3 \<and> 0x10000 \<le> c \<and> c < 0x110000
              then map_option ((#) c) (decode_units r)
              else None)
         | _ \<Rightarrow> None)
      else None)"

definition utf8_decode :: "pybytes \<Rightarrow> pystr option" where
  "utf8_decode bs = decode_units (map unat bs)"

subsection \<open>JSON values and \<open>json.dumps\<close> with its default arguments\<close>

text \<open>
  The values \<open>json.dumps\<close> is given: \<open>None\<close>, booleans, integers, strings, lists and
  dictionaries with string keys (in insertion order). \<open>JObject\<close> stands for any Python
  object the encoder refuses with a TypeError. Floats are left out of the model.
\<close>

datatype json =
    JNull
  | JBool bool
  | JInt int
  | JStr pystr
  | JList "json list"
  | JDict "(pystr \<times> json) list"
  | JObject

type_synonym pydict = "(pystr \<times> json) list"

fun digits :: "nat \<Rightarrow> pystr" where
  "digits n = (if n < 10 then [48 + n] else digits (n div 10) @ [48 + n mod 10])"

definition str_int :: "int \<Rightarrow> pystr" where
  "str_int i = (if i < 0 then 45 # digits (nat (- i)) else digits (nat i))"

definition hex_digit :: "nat \<Rightarrow> nat" where
  "hex_digit d = (if d < 10 then 48 + d else 87 + d)"

definition u_escape :: "nat \<Rightarrow> pystr" where
  "u_escape n = [92, 117, hex_digit (n div 4096 mod 16), hex_digit (n div 256 mod 16),
                 hex_digit (n div 16 mod 16), hex_digit (n mod 16)]"

text \<open>
  \<open>json.encoder.py_encode_basestring_ascii\<close>: the characters from space to tilde stay,
  except the quote and the backslash; the short escapes are used for backspace, tab,
  newline, form feed and carriage return; everything else becomes \<open>\uXXXX\<close>, a
  surrogate pair beyond the basic plane.
\<close>

definition escape_char :: "nat \<Rightarrow> pystr" where
  "escape_char c =
     (if c = 92 then [92, 92]
      else if c = 34 then [92, 34]
      else if c = 8 then [92, 98]
      else if c = 12 then [92, 102]
      else if c = 10 then [92, 110]
      else if c = 13 then [92, 114]
      else if c = 9 then [92, 116]
      else if 32 \<le> c \<and> c \<le> 126 then [c]
      else if c < 0x10000 then u_escape c
      else u_escape (0xD800 + ((c - 0x10000) div 1024) mod 1024)
           @ u_escape (0xDC00 + (c - 0x10000) mod 1024))"

definition encode_basestring_ascii :: "pystr \<Rightarrow> pystr" where
  "encode_basestring_ascii s = [34] @ concat (map escape_char s) @ [34]"

fun join :: "pystr \<Rightarrow> pystr list \<Rightarrow> pystr" where
  "join sep [] = []"
| "join sep [x] = x"
| "join sep (x # y # ys) = x @ sep @ join sep (y # ys)"

text \<open>
  \<open>json.dumps(obj)\<close>: item separator \<open>", "\<close>, key separator \<open>": "\<close>, ASCII output.
  \<open>None\<close> is the TypeError of an object that is not JSON serializable.
\<close>

fun json_dumps :: "json \<Rightarrow> pystr option" where
  "json_dumps JNull = Some (py ''null'')"
| "json_dumps (JBool b) = Some (if b then py ''true'' else py ''false'')"
| "json_dumps (JInt i) = Some (str_int i)"
| "json_dumps (JStr s) = Some (encode_basestring_ascii s)"
| "json_dumps (JList xs) =
     map_option (\<lambda>parts. py ''['' @ join (py '', '') parts @ py '']'')
       (those (map json_dumps xs))"
| "json_dumps (JDict kvs) =
     map_option (\<lambda>parts. py ''{'' @ join (py '', '') parts @ py ''}'')
       (those (map (\<lambda>kv. map_option (\<lambda>t. encode_basestring_ascii (fst kv) @ py '': '' @ t)
                                      (json_dumps (snd kv))) kvs))"
| "json_dumps JObject = None"


section \<open>Errors\<close>

text \<open>
  \<open>pywintypes.error\<close> carries the numeric error code, the name of the failing function
  and the message. The codes are those of the \<open>winerror\<close> module.
\<close>

record pywin_error =
  winerror :: int
  funcname :: pystr
  strerror :: pystr

definition NO_ERROR :: int where "NO_ERROR = 0"
definition ERROR_FILE_NOT_FOUND :: int where "ERROR_FILE_NOT_FOUND = 2"
definition ERROR_INVALID_HANDLE :: int where "ERROR_INVALID_HANDLE = 6"
definition ERROR_BROKEN_PIPE :: int where "ERROR_BROKEN_PIPE = 109"
definition ERROR_PIPE_BUSY :: int where "ERROR_PIPE_BUSY = 231"
definition ERROR_PIPE_NOT_CONNECTED :: int where "ERROR_PIPE_NOT_CONNECTED = 233"
definition ERROR_MORE_DATA :: int where "ERROR_MORE_DATA = 234"

text \<open>
  Every exception the helper can raise or let through. \<open>PipeDisconnectedException\<close> and
  \<open>NamedPipeTimeoutError\<close> are the two classes of the module; \<open>IOError\<close> carries the
  return code of its message; the others come from the libraries.
\<close>

datatype exn =
    PipeDisconnectedException (pd_winerror: int) (pd_funcname: pystr) (pd_strerror: pystr)
      (pd_message: pystr)
  | NamedPipeTimeoutError (te_duration: real) (te_error: pywin_error)
  | pywintypes_error pywin_error
  | IOError int
  | UnicodeDecodeError
  | UnicodeEncodeError
  | TypeError
  | JSONDecodeError
  | RuntimeError

text \<open>\<open>PipeDisconnectedException.__init__\<close>: the three fields and the formatted message.\<close>

definition new_PipeDisconnectedException :: "pywin_error \<Rightarrow> exn" where
  "new_PipeDisconnectedException e =
     PipeDisconnectedException (winerror e) (funcname e) (strerror e)
       (py ''An error occurred: '' @ strerror e @ py '' (Error code: '' @ str_int (winerror e)
        @ py '') in function '' @ funcname e)"

text \<open>
  \<open>_handle_pipe_exception\<close> never returns: it raises the disconnection error, or
  re-raises with a bare \<open>raise\<close> the exception that is being handled at that moment
  (\<open>active\<close>); with none being handled a bare \<open>raise\<close> is a RuntimeError.
\<close>

definition handle_pipe_exception :: "exn option \<Rightarrow> pywin_error \<Rightarrow> exn" where
  "handle_pipe_exception active e =
     (if winerror e \<in> set [ERROR_BROKEN_PIPE, ERROR_PIPE_NOT_CONNECTED, ERROR_INVALID_HANDLE]
      then new_PipeDisconnectedException e
      else (case active of Some a \<Rightarrow> a | None \<Rightarrow> RuntimeError))"

text \<open>
  The error kinds of the specification, and the kind each exception stands for:
  the timeout class is Timeout, the disconnection class is Disconnected, a re-raised
  \<open>pywintypes.error\<close> and the \<open>IOError\<close> of an unexpected status code are IOFailure,
  the JSON decoding error is ProtocolDecodeFailure. The remaining exceptions have no kind.
\<close>

datatype error_kind = Timeout | Disconnected | IOFailure | ProtocolDecodeFailure

fun kind_of :: "exn \<Rightarrow> error_kind option" where
  "kind_of (NamedPipeTimeoutError d e) = Some Timeout"
| "kind_of (PipeDisconnectedException c f s m) = Some Disconnected"
| "kind_of (pywintypes_error e) = Some IOFailure"
| "kind_of (IOError c) = Some IOFailure"
| "kind_of JSONDecodeError = Some ProtocolDecodeFailure"
| "kind_of UnicodeDecodeError = None"
| "kind_of UnicodeEncodeError = None"
| "kind_of TypeError = None"
| "kind_of RuntimeError = None"

section \<open>The transport\<close>

text \<open>
  The operating system is a script of what each call will answer, a clock and the trace
  of the calls made so far:
  \<^item> \<open>opens\<close>: for each successive \<open>CreateFile\<close>, the time the call takes and the handle
    or the error it yields;
  \<^item> \<open>set_state\<close>: the error of \<open>SetNamedPipeHandleState\<close>, if it fails;
  \<^item> \<open>writes\<close>: the error of \<open>WriteFile\<close>, if it fails;
  \<^item> \<open>reads\<close>: for each successive \<open>ReadFile\<close>, the error raised or the return code
    with the octets read.
  A call whose script is used up does not return: the result is \<open>None\<close>.
  \<open>handle.close()\<close> and \<open>time.sleep\<close> do not fail, and a sleep lasts what was asked.
\<close>

type_synonym handle = nat

datatype event =
    CreateFile pystr
  | Sleep real
  | SetNamedPipeHandleState handle
  | WriteFile handle pybytes
  | ReadFile handle nat
  | CloseHandle handle

record world =
  now :: real
  opens :: "(real \<times> (pywin_error + handle)) list"
  set_state :: "pywin_error option"
  writes :: "pywin_error option"
  reads :: "(pywin_error + int \<times> pybytes) list"
  trace :: "event list"

definition emit :: "event \<Rightarrow> world \<Rightarrow> world" where
  "emit ev w = w\<lparr>trace := trace w @ [ev]\<rparr>"

text \<open>The calls the helper makes. \<open>time.time()\<close> is the field \<open>now\<close>.\<close>

definition win32file_CreateFile ::
    "pystr \<Rightarrow> world \<Rightarrow> (world \<times> (pywin_error + handle)) option" where
  "win32file_CreateFile pipe_name w =
     (case opens w of
        [] \<Rightarrow> None
      | (dt, r) # rest \<Rightarrow>
          Some (emit (CreateFile pipe_name) (w\<lparr>now := now w + dt, opens := rest\<rparr>), r))"

definition time_sleep :: "real \<Rightarrow> world \<Rightarrow> world" where
  "time_sleep d w = emit (Sleep d) (w\<lparr>now := now w + d\<rparr>)"

definition win32pipe_SetNamedPipeHandleState :: "handle \<Rightarrow> world \<Rightarrow> world \<times> pywin_error option" where
  "win32pipe_SetNamedPipeHandleState h w = (emit (SetNamedPipeHandleState h) w, set_state w)"

definition win32file_WriteFile :: "handle \<Rightarrow> pybytes \<Rightarrow> world \<Rightarrow> world \<times> pywin_error option" where
  "win32file_WriteFile h bs w = (emit (WriteFile h bs) w, writes w)"

definition win32file_ReadFile ::
    "handle \<Rightarrow> nat \<Rightarrow> world \<Rightarrow> (world \<times> (pywin_error + int \<times> pybytes)) option" where
  "win32file_ReadFile h bufsize w =
     (case reads w of
        [] \<Rightarrow> None
      | r # rest \<Rightarrow> Some (emit (ReadFile h bufsize) (w\<lparr>reads := rest\<rparr>), r))"

definition handle_close :: "handle \<Rightarrow> world \<Rightarrow> world" where
  "handle_close h w = emit (CloseHandle h) w"

section \<open>NamedPipeHelper\<close>

subsection \<open>\<open>read_from_pipe\<close>\<close>

text \<open>
  The loop of \<open>read_from_pipe\<close>, with \<open>data_parts\<close> as accumulator. Each chunk is
  decoded on its own before the return code is looked at. The buffer size is the
  constant \<open>NAMED_PIPE_BUFFER_SIZE\<close> of the server configuration, taken as a parameter.
\<close>

function read_loop :: "nat \<Rightarrow> handle \<Rightarrow> pystr list \<Rightarrow> world \<Rightarrow> world \<times> (exn + pystr) option" where
  "read_loop bufsize h data_parts w =
     (case win32file_ReadFile h bufsize w of
        None \<Rightarrow> (w, None)
      | Some (w1, Inl e) \<Rightarrow>
          (w1, Some (Inl (handle_pipe_exception (Some (pywintypes_error e)) e)))
      | Some (w1, Inr (return_code, data)) \<Rightarrow>
          (case utf8_decode data of
             None \<Rightarrow> (w1, Some (Inl UnicodeDecodeError))
           | Some s \<Rightarrow>
               if return_code = ERROR_MORE_DATA
               then read_loop bufsize h (data_parts @ [s]) w1
               else if return_code = NO_ERROR
               then (w1, Some (Inr (concat (data_parts @ [s]))))
               else (w1, Some (Inl (IOError return_code)))))"
  by pat_completeness auto
termination
  by (relation "measure (\<lambda>(bufsize, h, data_parts, w). length (reads w))")
     (auto simp: win32file_ReadFile_def emit_def split: list.splits)

definition read_from_pipe :: "nat \<Rightarrow> handle \<Rightarrow> world \<Rightarrow> world \<times> (exn + pystr) option" where
  "read_from_pipe bufsize h w = read_loop bufsize h [] w"

subsection \<open>\<open>write_to_pipe\<close>\<close>

definition write_to_pipe :: "handle \<Rightarrow> pystr \<Rightarrow> world \<Rightarrow> world \<times> (exn + unit)" where
  "write_to_pipe h message w =
     (case utf8_encode message of
        None \<Rightarrow> (w, Inl UnicodeEncodeError)
      | Some bs \<Rightarrow>
          (case win32file_WriteFile h bs w of
             (w1, Some e) \<Rightarrow> (w1, Inl (handle_pipe_exception (Some (pywintypes_error e)) e))
           | (w1, None) \<Rightarrow> (w1, Inr ())))"

subsection \<open>\<open>establish_named_pipe_connection\<close>\<close>

text \<open>
  The loop \<open>while handle is None\<close>. On a transient failure the elapsed time is taken
  first, then comes the sleep, then the comparison with the timeout.
\<close>

function establish_loop :: "pystr \<Rightarrow> real \<Rightarrow> real \<Rightarrow> world \<Rightarrow> world \<times> (exn + handle) option" where
  "establish_loop pipe_name timeout_in_seconds start_time w =
     (case win32file_CreateFile pipe_name w of
        None \<Rightarrow> (w, None)
      | Some (w1, Inr h) \<Rightarrow> (w1, Some (Inr h))
      | Some (w1, Inl e) \<Rightarrow>
          if winerror e \<in> set [ERROR_FILE_NOT_FOUND, ERROR_PIPE_BUSY]
          then (let duration = now w1 - start_time;
                    w2 = time_sleep (1 / 10) w1
                in if duration > timeout_in_seconds
                   then (w2, Some (Inl (NamedPipeTimeoutError duration e)))
                   else establish_loop pipe_name timeout_in_seconds start_time w2)
          else (w1, Some (Inl (pywintypes_error e))))"
  by pat_completeness auto
termination
  by (relation "measure (\<lambda>(pipe_name, timeout_in_seconds, start_time, w). length (opens w))")
     (auto simp: win32file_CreateFile_def time_sleep_def emit_def split: list.splits)

definition establish_named_pipe_connection ::
    "pystr \<Rightarrow> real \<Rightarrow> world \<Rightarrow> world \<times> (exn + handle) option" where
  "establish_named_pipe_connection pipe_name timeout_in_seconds w =
     (case establish_loop pipe_name timeout_in_seconds (now w) w of
        (w1, Some (Inr h)) \<Rightarrow>
          (case win32pipe_SetNamedPipeHandleState h w1 of
             (w2, Some e) \<Rightarrow> (w2, Some (Inl (pywintypes_error e)))
           | (w2, None) \<Rightarrow> (w2, Some (Inr h)))
      | (w1, r) \<Rightarrow> (w1, r))"

subsection \<open>\<open>send_named_pipe_request\<close>\<close>

text \<open>A dictionary argument is used when it is truthy: given and not empty.\<close>

definition truthy :: "pydict option \<Rightarrow> bool" where
  "truthy d = (case d of None \<Rightarrow> False | Some kvs \<Rightarrow> kvs \<noteq> [])"

text \<open>
  \<open>message_dict\<close> as the request builds it: \<open>method\<close> and \<open>path\<close>, then \<open>body\<close> and
  \<open>params\<close>, each the text of \<open>json.dumps\<close> of the argument. \<open>None\<close> is the TypeError
  of an argument that cannot be serialized.
\<close>

definition message_dict :: "pystr \<Rightarrow> pystr \<Rightarrow> pydict option \<Rightarrow> pydict option \<Rightarrow> pydict option" where
  "message_dict method path params json_body =
     (let d0 = [(py ''method'', JStr method), (py ''path'', JStr path)] in
      case (case json_body of
              Some kvs \<Rightarrow>
                if kvs \<noteq> []
                then map_option (\<lambda>s. d0 @ [(py ''body'', JStr s)]) (json_dumps (JDict kvs))
                else Some d0
            | None \<Rightarrow> Some d0) of
        None \<Rightarrow> None
      | Some d1 \<Rightarrow>
          (case params of
             Some kvs \<Rightarrow>
               if kvs \<noteq> []
               then map_option (\<lambda>s. d1 @ [(py ''params'', JStr s)]) (json_dumps (JDict kvs))
               else Some d1
           | None \<Rightarrow> Some d1))"

text \<open>The text written to the pipe: \<open>json.dumps(message_dict)\<close>.\<close>

definition request_message :: "pystr \<Rightarrow> pystr \<Rightarrow> pydict option \<Rightarrow> pydict option \<Rightarrow> pystr option" where
  "request_message method path params json_body =
     (case message_dict method path params json_body of
        None \<Rightarrow> None
      | Some d \<Rightarrow> json_dumps (JDict d))"

text \<open>The body of the \<open>try\<close> block: build the message, write it, read the answer.\<close>

definition exchange ::
    "nat \<Rightarrow> handle \<Rightarrow> pystr \<Rightarrow> pystr \<Rightarrow> pydict option \<Rightarrow> pydict option \<Rightarrow> world
      \<Rightarrow> world \<times> (exn + pystr) option" where
  "exchange bufsize h method path params json_body w =
     (case request_message method path params json_body of
        None \<Rightarrow> (w, Some (Inl TypeError))
      | Some message \<Rightarrow>
          (case write_to_pipe h message w of
             (w1, Inl e) \<Rightarrow> (w1, Some (Inl e))
           | (w1, Inr u) \<Rightarrow> read_from_pipe bufsize h w1))"

text \<open>
  The whole request. \<open>json.loads\<close> is a parameter: \<open>None\<close> is its JSONDecodeError.
  The \<open>finally\<close> clause closes the handle whenever the \<open>try\<close> block is left; a block
  that never returns is never left.
\<close>

definition send_named_pipe_request ::
    "(pystr \<Rightarrow> 'v option) \<Rightarrow> nat \<Rightarrow> pystr \<Rightarrow> real \<Rightarrow> pystr \<Rightarrow> pystr \<Rightarrow> pydict option
      \<Rightarrow> pydict option \<Rightarrow> world \<Rightarrow> world \<times> (exn + 'v) option" where
  "send_named_pipe_request json_loads bufsize pipe_name timeout_in_seconds method path
       params json_body w =
     (case establish_named_pipe_connection pipe_name timeout_in_seconds w of
        (w1, None) \<Rightarrow> (w1, None)
      | (w1, Some (Inl e)) \<Rightarrow> (w1, Some (Inl e))
      | (w1, Some (Inr h)) \<Rightarrow>
          (case exchange bufsize h method path params json_body w1 of
             (w2, None) \<Rightarrow> (w2, None)
           | (w2, Some (Inl e)) \<Rightarrow> (handle_close h w2, Some (Inl e))
           | (w2, Some (Inr result)) \<Rightarrow>
               (handle_close h w2,
                case json_loads result of
                  None \<Rightarrow> Some (Inl JSONDecodeError)
                | Some v \<Rightarrow> Some (Inr v))))"


section \<open>The transport as a test harness sees it\<close>

text \<open>
  In message mode a message reaches the reader as one or more chunks: every chunk but
  the last comes with \<open>ERROR_MORE_DATA\<close>, the last with \<open>NO_ERROR\<close>. \<open>deliver\<close> is
  the script of reads for a message cut into the given chunks, and \<open>message_chunks\<close>
  cuts a message the way reads with a buffer of \<open>n\<close> octets do.
\<close>

fun deliver :: "pybytes list \<Rightarrow> (pywin_error + int \<times> pybytes) list" where
  "deliver [] = []"
| "deliver [c] = [Inr (NO_ERROR, c)]"
| "deliver (c # d # cs) = Inr (ERROR_MORE_DATA, c) # deliver (d # cs)"

function message_chunks :: "nat \<Rightarrow> pybytes \<Rightarrow> pybytes list" where
  "message_chunks n bs =
     (if n = 0 \<or> length bs \<le> n then [bs] else take n bs # message_chunks n (drop n bs))"
  by pat_completeness auto
termination
  by (relation "measure (\<lambda>(n, bs). length bs)") auto

definition is_ascii :: "pystr \<Rightarrow> bool" where
  "is_ascii s = list_all (\<lambda>c. c < 128) s"

section \<open>Properties\<close>

declare digits.simps [simp del]
declare decode_units.simps(2) [simp del]
declare read_loop.simps [simp del]
declare establish_loop.simps [simp del]
declare message_chunks.simps [simp del]

subsection \<open>The output of \<open>json.dumps\<close> is ASCII\<close>

lemma is_ascii_Nil [simp]: "is_ascii []"
  by (simp add: is_ascii_def)

lemma is_ascii_Cons [simp]: "is_ascii (c # s) \<longleftrightarrow> c < 128 \<and> is_ascii s"
  by (simp add: is_ascii_def)

lemma is_ascii_append [simp]: "is_ascii (a @ b) \<longleftrightarrow> is_ascii a \<and> is_ascii b"
  by (simp add: is_ascii_def)

lemma digits_ascii: "is_ascii (digits n)"
proof (induction n rule: digits.induct)
  case (1 n)
  show ?case
  proof (cases "n < 10")
    case True
    then show ?thesis by (simp add: digits.simps [of n])
  next
    case False
    with "1.IH" show ?thesis by (simp add: digits.simps [of n])
  qed
qed

lemma str_int_ascii: "is_ascii (str_int i)"
  by (simp add: str_int_def digits_ascii)

lemma hex_digit_ascii: "d < 16 \<Longrightarrow> hex_digit d < 128"
  by (simp add: hex_digit_def)

lemma u_escape_ascii: "is_ascii (u_escape n)"
  by (simp add: u_escape_def hex_digit_ascii)

lemma escape_char_ascii: "is_ascii (escape_char c)"
  by (simp add: escape_char_def u_escape_ascii)

lemma concat_ascii: "(\<And>p. p \<in> set ps \<Longrightarrow> is_ascii p) \<Longrightarrow> is_ascii (concat ps)"
  by (induction ps) simp_all

lemma encode_basestring_ascii_ascii: "is_ascii (encode_basestring_ascii s)"
  by (simp add: encode_basestring_ascii_def) (rule concat_ascii, auto simp: escape_char_ascii)

lemma join_ascii: "is_ascii sep \<Longrightarrow> (\<And>p. p \<in> set ps \<Longrightarrow> is_ascii p) \<Longrightarrow> is_ascii (join sep ps)"
  by (induction sep ps rule: join.induct) simp_all

lemma those_Some_set: "those xs = Some ys \<Longrightarrow> y \<in> set ys \<Longrightarrow> Some y \<in> set xs"
  by (induction xs arbitrary: ys) (auto split: option.splits)

lemma json_dumps_ascii: "json_dumps j = Some s \<Longrightarrow> is_ascii s"
proof (induction j arbitrary: s)
  case JNull
  then show ?case by (auto simp: py_def)
next
  case (JBool b)
  then show ?case by (cases b) (auto simp: py_def)
next
  case (JInt i)
  then show ?case by (auto simp: str_int_ascii)
next
  case (JStr t)
  then show ?case by (auto simp: encode_basestring_ascii_ascii)
next
  case (JList xs)
  then obtain parts where p: "those (map json_dumps xs) = Some parts"
    and s: "s = py ''['' @ join (py '', '') parts @ py '']''" by auto
  have "is_ascii q" if "q \<in> set parts" for q
  proof -
    from those_Some_set [OF p that] obtain j' where "j' \<in> set xs" "json_dumps j' = Some q"
      by auto
    with JList.IH show ?thesis by blast
  qed
  then have "is_ascii (join (py '', '') parts)"
    by (intro join_ascii) (simp_all add: py_def)
  with s show ?case by (simp add: py_def)
next
  case (JDict kvs)
  let ?f = "\<lambda>kv. map_option (\<lambda>t. encode_basestring_ascii (fst kv) @ py '': '' @ t) (json_dumps (snd kv))"
  from JDict.prems obtain parts where p: "those (map ?f kvs) = Some parts"
    and s: "s = py ''{'' @ join (py '', '') parts @ py ''}''" by auto
  have "is_ascii q" if "q \<in> set parts" for q
  proof -
    from those_Some_set [OF p that] have "Some q \<in> ?f ` set kvs" by simp
    then obtain kv where kv: "kv \<in> set kvs" "Some q = ?f kv" by blast
    then obtain t where t: "json_dumps (snd kv) = Some t"
      "q = encode_basestring_ascii (fst kv) @ py '': '' @ t"
      by (cases "json_dumps (snd kv)") auto
    have "snd kv \<in> Basic_BNFs.snds kv" by (cases kv) auto
    with JDict.IH kv(1) t(1) have "is_ascii t" by blast
    with t(2) show ?thesis by (simp add: encode_basestring_ascii_ascii py_def)
  qed
  then have "is_ascii (join (py '', '') parts)"
    by (intro join_ascii) (simp_all add: py_def)
  with s show ?case by (simp add: py_def)
next
  case JObject
  then show ?case by simp
qed

lemma encode_units_ascii: "is_ascii s \<Longrightarrow> encode_units s = Some s"
  by (induction s) (simp_all add: encode_code_point_def)

lemma decode_units_lt: "b0 < 128 \<Longrightarrow> decode_units (b0 # bs) = map_option ((#) b0) (decode_units bs)"
  by (subst decode_units.simps) simp

lemma decode_units_ascii: "is_ascii s \<Longrightarrow> decode_units s = Some s"
  by (induction s) (simp_all add: decode_units_lt)

subsection \<open>Decoding undoes encoding\<close>

lemma decode_units_1: "c < 0x80 \<Longrightarrow> decode_units (c # r) = map_option ((#) c) (decode_units r)"
  by (subst decode_units.simps) simp

lemma decode_units_2:
  assumes "0x80 \<le> c" "c < 0x800"
  shows "decode_units ((0xC0 + c div 64) # (0x80 + c mod 64) # r) = map_option ((#) c) (decode_units r)"
proof -
  have a: "2 \<le> c div 64" "c div 64 < 32" using assms by arith+
  have b: "c mod 64 < 64" by simp
  have c: "c div 64 * 64 + c mod 64 = c" by simp
  show ?thesis
    using a b c by (subst decode_units.simps) (simp add: is_cont_def)
qed

lemma decode_units_3:
  assumes "0x800 \<le> c" "c < 0x10000" "\<not> is_surrogate c"
  shows "decode_units ((0xE0 + c div 4096) # (0x80 + (c div 64) mod 64) # (0x80 + c mod 64) # r)
         = map_option ((#) c) (decode_units r)"
proof -
  have a: "c div 4096 < 16" using assms by arith
  have b: "c mod 64 < 64" "c div 64 mod 64 < 64" by simp_all
  have "c div 4096 = c div 64 div 64" by (simp add: div_mult2_eq)
  moreover have "c div 64 = c div 64 div 64 * 64 + c div 64 mod 64" by simp
  moreover have "c = c div 64 * 64 + c mod 64" by simp
  ultimately have c: "c div 4096 * 4096 + c div 64 mod 64 * 64 + c mod 64 = c" by linarith
  show ?thesis
    using a b c assms by (subst decode_units.simps) (simp add: is_cont_def Let_def)
qed

lemma decode_units_4:
  assumes "0x10000 \<le> c" "c < 0x110000"
  shows "decode_units ((0xF0 + c div 262144) # (0x80 + (c div 4096) mod 64)
            # (0x80 + (c div 64) mod 64) # (0x80 + c mod 64) # r)
         = map_option ((#) c) (decode_units r)"
proof -
  have a: "c div 262144 < 5" using assms by arith
  have b: "c mod 64 < 64" "c div 64 mod 64 < 64" "c div 4096 mod 64 < 64" by simp_all
  have "c div 4096 = c div 64 div 64" by (simp add: div_mult2_eq)
  moreover have "c div 262144 = c div 4096 div 64" by (simp add: div_mult2_eq)
  moreover have "c div 4096 = c div 4096 div 64 * 64 + c div 4096 mod 64" by simp
  moreover have "c div 64 = c div 64 div 64 * 64 + c div 64 mod 64" by simp
  moreover have "c = c div 64 * 64 + c mod 64" by simp
  ultimately have c: "c div 262144 * 262144 + c div 4096 mod 64 * 4096 + c div 64 mod 64 * 64 + c mod 64 = c"
    by linarith
  show ?thesis
    using a b c assms by (subst decode_units.simps) (simp add: is_cont_def Let_def)
qed

lemma decode_encode_code_point:
  "encode_code_point c = Some bs \<Longrightarrow> decode_units (bs @ r) = map_option ((#) c) (decode_units r)"
  by (auto simp: encode_code_point_def decode_units_1 decode_units_2 decode_units_3 decode_units_4
           split: if_splits)

lemma decode_encode_units: "encode_units s = Some bs \<Longrightarrow> decode_units bs = Some s"
proof (induction s arbitrary: bs)
  case Nil
  then show ?case by simp
next
  case (Cons c s)
  then obtain b r where b: "encode_code_point c = Some b" and r: "encode_units s = Some r"
    and bs: "bs = b @ r" by (auto split: option.splits)
  from Cons.IH [OF r] decode_encode_code_point [OF b, of r] bs show ?case by simp
qed

lemma encode_code_point_octets: "encode_code_point c = Some bs \<Longrightarrow> b \<in> set bs \<Longrightarrow> b < 256"
  by (auto simp: encode_code_point_def split: if_splits)

lemma encode_units_octets: "encode_units s = Some bs \<Longrightarrow> b \<in> set bs \<Longrightarrow> b < 256"
proof (induction s arbitrary: bs)
  case Nil
  then show ?case by simp
next
  case (Cons c s)
  then show ?case
    by (auto split: option.splits dest: encode_code_point_octets)
qed

lemma unat_of_nat_octets:
  "(\<And>b. b \<in> set bs \<Longrightarrow> b < 256) \<Longrightarrow> map unat (map of_nat bs :: 8 word list) = bs"
  by (induction bs) (simp_all add: unat_of_nat)

lemma utf8_roundtrip: "utf8_encode s = Some bs \<Longrightarrow> utf8_decode bs = Some s"
proof -
  assume "utf8_encode s = Some bs"
  then obtain us where us: "encode_units s = Some us" and bs: "bs = map of_nat us"
    by (auto simp: utf8_encode_def)
  have "map unat bs = us"
    unfolding bs by (rule unat_of_nat_octets) (rule encode_units_octets [OF us])
  with decode_encode_units [OF us] show ?thesis by (simp add: utf8_decode_def)
qed

subsection \<open>The error classifier\<close>

text \<open>
  C3. A transport error whose code is broken pipe, pipe not connected or invalid handle
  becomes a PipeDisconnectedException (kind Disconnected) carrying the code, the function
  name and the message of the original error, whatever exception is being handled. With
  any other code, the classifier called from the handler of that error, as the reader and
  the writer call it, re-raises the original error unchanged (kind IOFailure).
\<close>

theorem handle_pipe_exception_classifies:
  "(winerror e = ERROR_BROKEN_PIPE \<or> winerror e = ERROR_PIPE_NOT_CONNECTED
      \<or> winerror e = ERROR_INVALID_HANDLE
    \<longrightarrow> handle_pipe_exception active e = new_PipeDisconnectedException e
        \<and> pd_winerror (handle_pipe_exception active e) = winerror e
        \<and> pd_funcname (handle_pipe_exception active e) = funcname e
        \<and> pd_strerror (handle_pipe_exception active e) = strerror e
        \<and> kind_of (handle_pipe_exception active e) = Some Disconnected)
   \<and> (winerror e \<noteq> ERROR_BROKEN_PIPE \<and> winerror e \<noteq> ERROR_PIPE_NOT_CONNECTED
      \<and> winerror e \<noteq> ERROR_INVALID_HANDLE
    \<longrightarrow> handle_pipe_exception (Some (pywintypes_error e)) e = pywintypes_error e
        \<and> kind_of (handle_pipe_exception (Some (pywintypes_error e)) e) = Some IOFailure)"
  by (simp add: handle_pipe_exception_def new_PipeDisconnectedException_def)

theorem handle_pipe_exception_classifies_witness:
  "handle_pipe_exception (Some (pywintypes_error
       \<lparr>winerror = 109, funcname = py ''ReadFile'', strerror = py ''The pipe has been ended.''\<rparr>))
     \<lparr>winerror = 109, funcname = py ''ReadFile'', strerror = py ''The pipe has been ended.''\<rparr>
   = PipeDisconnectedException 109 (py ''ReadFile'') (py ''The pipe has been ended.'')
       (py ''An error occurred: The pipe has been ended. (Error code: 109) in function ReadFile'')
   \<and> handle_pipe_exception (Some (pywintypes_error
       \<lparr>winerror = 5, funcname = py ''WriteFile'', strerror = py ''Access is denied.''\<rparr>))
     \<lparr>winerror = 5, funcname = py ''WriteFile'', strerror = py ''Access is denied.''\<rparr>
   = pywintypes_error \<lparr>winerror = 5, funcname = py ''WriteFile'', strerror = py ''Access is denied.''\<rparr>"
  using handle_pipe_exception_classifies [of "\<lparr>winerror = 109, funcname = py ''ReadFile'', strerror = py ''The pipe has been ended.''\<rparr>"
     "Some (pywintypes_error
       \<lparr>winerror = 109, funcname = py ''ReadFile'', strerror = py ''The pipe has been ended.''\<rparr>)"]
    handle_pipe_exception_classifies [of "\<lparr>winerror = 5, funcname = py ''WriteFile'', strerror = py ''Access is denied.''\<rparr>"]
  by (simp add: ERROR_BROKEN_PIPE_def ERROR_PIPE_NOT_CONNECTED_def ERROR_INVALID_HANDLE_def
        new_PipeDisconnectedException_def py_def str_int_def digits.simps)

subsection \<open>The request envelope\<close>

lemma utf8_encode_ascii: "is_ascii s \<Longrightarrow> utf8_encode s = Some (map of_nat s)"
  by (simp add: utf8_encode_def encode_units_ascii)

lemma request_message_ascii: "request_message method path params json_body = Some msg \<Longrightarrow> is_ascii msg"
  by (cases "message_dict method path params json_body")
     (auto simp: request_message_def simp del: json_dumps.simps dest: json_dumps_ascii)




lemma message_dict_empty_params: "message_dict method path (Some []) json_body = message_dict method path None json_body"
  by (simp add: message_dict_def Let_def split: option.splits)

lemma exchange_empty_params:
  "exchange bufsize h method path (Some []) json_body = exchange bufsize h method path None json_body"
  unfolding exchange_def request_message_def message_dict_empty_params ..

lemma message_dict_empty_body: "message_dict method path params (Some []) = message_dict method path params None"
  by (simp add: message_dict_def)

lemma exchange_empty_body:
  "exchange bufsize h method path params (Some []) = exchange bufsize h method path params None"
  unfolding exchange_def request_message_def message_dict_empty_body ..

lemma message_dict_keys:
  "message_dict method path params json_body = Some d \<Longrightarrow>
     map fst d = [py ''method'', py ''path'']
        @ (if truthy json_body then [py ''body''] else [])
        @ (if truthy params then [py ''params''] else [])"
  by (auto simp: message_dict_def truthy_def Let_def split: option.splits if_splits)

lemma py_neq: "py ''params'' \<noteq> py ''method''" "py ''params'' \<noteq> py ''path''" "py ''params'' \<noteq> py ''body''"
   "py ''body'' \<noteq> py ''method''" "py ''body'' \<noteq> py ''path''" "py ''body'' \<noteq> py ''params''"
  by (simp_all add: py_def)

text \<open>
  C10. An empty dictionary given as \<open>params\<close> or as \<open>json_body\<close> changes nothing
  compared with the argument left out: the whole request behaves the same. A field is in
  the envelope exactly when its argument is given and is not empty.
\<close>

theorem empty_mapping_is_omitted:
  "send_named_pipe_request json_loads bufsize pipe_name timeout_in_seconds method path
       (Some []) json_body w
     = send_named_pipe_request json_loads bufsize pipe_name timeout_in_seconds method path
       None json_body w
   \<and> send_named_pipe_request json_loads bufsize pipe_name timeout_in_seconds method path
       params (Some []) w
     = send_named_pipe_request json_loads bufsize pipe_name timeout_in_seconds method path
       params None w
   \<and> (message_dict method path params json_body = Some d \<longrightarrow>
        (py ''params'' \<in> set (map fst d) \<longleftrightarrow> params \<noteq> None \<and> params \<noteq> Some [])
      \<and> (py ''body'' \<in> set (map fst d) \<longleftrightarrow> json_body \<noteq> None \<and> json_body \<noteq> Some []))"
proof (intro conjI impI)
  show "send_named_pipe_request json_loads bufsize pipe_name timeout_in_seconds method path
       (Some []) json_body w
     = send_named_pipe_request json_loads bufsize pipe_name timeout_in_seconds method path
       None json_body w"
    unfolding send_named_pipe_request_def exchange_empty_params ..
  show "send_named_pipe_request json_loads bufsize pipe_name timeout_in_seconds method path
       params (Some []) w
     = send_named_pipe_request json_loads bufsize pipe_name timeout_in_seconds method path
       params None w"
    unfolding send_named_pipe_request_def exchange_empty_body ..
next
  assume d: "message_dict method path params json_body = Some d"
  have t: "truthy params \<longleftrightarrow> params \<noteq> None \<and> params \<noteq> Some []" for params
    by (cases params) (simp_all add: truthy_def)
  show "py ''params'' \<in> set (map fst d) \<longleftrightarrow> params \<noteq> None \<and> params \<noteq> Some []"
    unfolding message_dict_keys [OF d] t [symmetric] by (simp add: py_neq)
  show "py ''body'' \<in> set (map fst d) \<longleftrightarrow> json_body \<noteq> None \<and> json_body \<noteq> Some []"
    unfolding message_dict_keys [OF d] t [symmetric] by (simp add: py_neq)
qed

theorem empty_mapping_is_omitted_witness:
  \<open>message_dict (py ''GET'') (py ''/status'') (Some []) (Some [(py ''x'', JInt 1)])
     = Some [(py ''method'', JStr (py ''GET'')), (py ''path'', JStr (py ''/status'')),
             (py ''body'', JStr (py ''{"x": 1}''))]
   \<and> py ''params'' \<notin> set (map fst [(py ''method'', JStr (py ''GET'')), (py ''path'', JStr (py ''/status'')),
             (py ''body'', JStr (py ''{"x": 1}''))])
   \<and> py ''body'' \<in> set (map fst [(py ''method'', JStr (py ''GET'')), (py ''path'', JStr (py ''/status'')),
             (py ''body'', JStr (py ''{"x": 1}''))])\<close>
proof -
  have d: \<open>message_dict (py ''GET'') (py ''/status'') (Some []) (Some [(py ''x'', JInt 1)])
     = Some [(py ''method'', JStr (py ''GET'')), (py ''path'', JStr (py ''/status'')),
             (py ''body'', JStr (py ''{"x": 1}''))]\<close>
    by (simp add: message_dict_def py_def encode_basestring_ascii_def escape_char_def
          str_int_def digits.simps)
  from empty_mapping_is_omitted [THEN conjunct2, THEN conjunct2, rule_format, OF d] d
  show ?thesis by simp
qed

subsection \<open>Establishing the connection\<close>

lemma establish_loop_blocked:
  "win32file_CreateFile pipe_name w = None \<Longrightarrow>
     establish_loop pipe_name t s w = (w, None)"
  by (subst establish_loop.simps) simp

lemma establish_loop_opened:
  "win32file_CreateFile pipe_name w = Some (w1, Inr h) \<Longrightarrow>
     establish_loop pipe_name t s w = (w1, Some (Inr h))"
  by (subst establish_loop.simps) simp

lemma establish_loop_other:
  "win32file_CreateFile pipe_name w = Some (w1, Inl e) \<Longrightarrow>
   winerror e \<noteq> ERROR_FILE_NOT_FOUND \<Longrightarrow> winerror e \<noteq> ERROR_PIPE_BUSY \<Longrightarrow>
     establish_loop pipe_name t s w = (w1, Some (Inl (pywintypes_error e)))"
  by (subst establish_loop.simps) simp

lemma establish_loop_transient:
  "win32file_CreateFile pipe_name w = Some (w1, Inl e) \<Longrightarrow>
   winerror e = ERROR_FILE_NOT_FOUND \<or> winerror e = ERROR_PIPE_BUSY \<Longrightarrow>
     establish_loop pipe_name t s w =
       (if now w1 - s > t
        then (time_sleep (1 / 10) w1, Some (Inl (NamedPipeTimeoutError (now w1 - s) e)))
        else establish_loop pipe_name t s (time_sleep (1 / 10) w1))"
  by (subst establish_loop.simps) (auto simp: Let_def)

lemma CreateFile_Cons:
  "opens w = (dt, r) # rest \<Longrightarrow>
     win32file_CreateFile pipe_name w
       = Some (w\<lparr>now := now w + dt, opens := rest, trace := trace w @ [CreateFile pipe_name]\<rparr>, r)"
  by (simp add: win32file_CreateFile_def emit_def)



lemma establish_passes_failure:
  "establish_loop pipe_name t (now w) w = (w', Some (Inl x)) \<Longrightarrow>
     establish_named_pipe_connection pipe_name t w = (w', Some (Inl x))"
  by (simp add: establish_named_pipe_connection_def)



lemma establish_loop_timeout:
  "establish_loop pipe_name t s w = (w', Some (Inl (NamedPipeTimeoutError d e))) \<Longrightarrow>
     t < d \<and> (winerror e = ERROR_FILE_NOT_FOUND \<or> winerror e = ERROR_PIPE_BUSY)
     \<and> now w' = s + d + 1 / 10"
proof (induction "opens w" arbitrary: w)
  case Nil
  then have "win32file_CreateFile pipe_name w = None"
    by (simp add: win32file_CreateFile_def)
  from establish_loop_blocked [OF this] Nil.prems show ?case by simp
next
  case (Cons x xs)
  obtain dt r where x: "x = (dt, r)" by (cases x)
  let ?w1 = "w\<lparr>now := now w + dt, opens := xs, trace := trace w @ [CreateFile pipe_name]\<rparr>"
  have cf: "win32file_CreateFile pipe_name w = Some (?w1, r)"
    using Cons.hyps(2) x by (simp add: CreateFile_Cons)
  show ?case
  proof (cases r)
    case (Inr h)
    with establish_loop_opened [of pipe_name w ?w1 h t s] cf Cons.prems show ?thesis by simp
  next
    case (Inl e0)
    show ?thesis
    proof (cases "winerror e0 = ERROR_FILE_NOT_FOUND \<or> winerror e0 = ERROR_PIPE_BUSY")
      case False
      with establish_loop_other [of pipe_name w ?w1 e0 t s] cf Inl Cons.prems show ?thesis by simp
    next
      case True
      note step = establish_loop_transient [OF cf [unfolded Inl] True, of t s]
      show ?thesis
      proof (cases "now ?w1 - s > t")
        case gt: True
        with step Cons.prems have "w' = time_sleep (1 / 10) ?w1" "d = now ?w1 - s" "e = e0"
          by simp_all
        with gt True show ?thesis by (simp add: time_sleep_def emit_def)
      next
        case le: False
        with step Cons.prems
        have "establish_loop pipe_name t s (time_sleep (1 / 10) ?w1)
                = (w', Some (Inl (NamedPipeTimeoutError d e)))" by simp
        moreover have "xs = opens (time_sleep (1 / 10) ?w1)"
          by (simp add: time_sleep_def emit_def)
        ultimately show ?thesis by (rule Cons.hyps(1) [rotated])
      qed
    qed
  qed
qed

lemma establish_loop_never_connectable:
  assumes "opens w \<noteq> []"
    and "\<forall>(d, r) \<in> set (opens w). d \<le> \<delta> \<and> (\<exists>e. r = Inl e \<and> (winerror e = ERROR_FILE_NOT_FOUND \<or> winerror e = ERROR_PIPE_BUSY))"
    and "now w - s + sum_list (map fst (opens w)) + real (length (opens w)) / 10 > t + 1 / 10"
    and "now w - s \<le> max t 0 + 1 / 10"
  shows "\<exists>w' d e. establish_loop pipe_name t s w = (w', Some (Inl (NamedPipeTimeoutError d e)))
           \<and> d \<le> max t 0 + 1 / 10 + \<delta>"
  using assms
proof (induction "opens w" arbitrary: w)
  case Nil
  then show ?case by simp
next
  case (Cons x xs)
  obtain dt r where x: "x = (dt, r)" by (cases x)
  from Cons.prems(2) Cons.hyps(2) [symmetric] x obtain e0 where r: "r = Inl e0"
    and tr: "winerror e0 = ERROR_FILE_NOT_FOUND \<or> winerror e0 = ERROR_PIPE_BUSY"
    and dt: "dt \<le> \<delta>" by auto
  let ?w1 = "w\<lparr>now := now w + dt, opens := xs, trace := trace w @ [CreateFile pipe_name]\<rparr>"
  let ?w2 = "time_sleep (1 / 10) ?w1"
  have cf: "win32file_CreateFile pipe_name w = Some (?w1, Inl e0)"
    using Cons.hyps(2) x r by (simp add: CreateFile_Cons)
  note step = establish_loop_transient [OF cf tr, of t s]
  show ?case
  proof (cases "now ?w1 - s > t")
    case True
    have "now ?w1 - s \<le> max t 0 + 1 / 10 + \<delta>"
      using Cons.prems(4) dt by simp
    with step True show ?thesis by auto
  next
    case False
    have w2: "xs = opens ?w2" "now ?w2 = now w + dt + 1 / 10"
      by (simp_all add: time_sleep_def emit_def)
    have total: "now w - s + (dt + sum_list (map fst xs)) + (1 + real (length xs)) / 10 > t + 1 / 10"
      using Cons.prems(3) Cons.hyps(2) [symmetric] x by simp
    have ne: "opens ?w2 \<noteq> []"
    proof
      assume "opens ?w2 = []"
      with w2(1) have "xs = []" by simp
      with total False show False by simp
    qed
    have p2: "\<forall>(d, r) \<in> set (opens ?w2). d \<le> \<delta> \<and> (\<exists>e. r = Inl e \<and> (winerror e = ERROR_FILE_NOT_FOUND \<or> winerror e = ERROR_PIPE_BUSY))"
      using Cons.prems(2) Cons.hyps(2) [symmetric] w2(1) [symmetric] by simp
    have p3: "now ?w2 - s + sum_list (map fst (opens ?w2)) + real (length (opens ?w2)) / 10 > t + 1 / 10"
      using total unfolding w2(1) [symmetric] w2(2) by (simp add: add_divide_distrib)
    have p4: "now ?w2 - s \<le> max t 0 + 1 / 10"
      using False unfolding w2(2) by simp
    from Cons.hyps(1) [OF w2(1) ne p2 p3 p4] step False show ?thesis by simp
  qed
qed

text \<open>
  C5, as the code has it. On a transient failure the elapsed time is taken when
  \<open>CreateFile\<close> has failed, before the sleep of 100 ms; after the sleep the loop raises
  the timeout error, carrying that elapsed time and the error, exactly when the elapsed
  time taken before the sleep exceeds the timeout, and tries again otherwise. A timeout
  error therefore carries a duration above the timeout and a transient error, and is
  raised 100 ms after that duration was taken, never before the timeout has elapsed. When
  every attempt fails with a transient error, no attempt takes longer than \<open>\<delta>\<close> and
  the script is long enough, the call ends with the timeout error, with a duration of at
  most the timeout plus one sleep plus \<open>\<delta>\<close>.
\<close>

theorem timeout_after_measured_elapsed:
  "(win32file_CreateFile pipe_name w = Some (w1, Inl e)
      \<and> (winerror e = ERROR_FILE_NOT_FOUND \<or> winerror e = ERROR_PIPE_BUSY) \<longrightarrow>
      establish_loop pipe_name t s w =
        (if now w1 - s > t
         then (time_sleep (1 / 10) w1, Some (Inl (NamedPipeTimeoutError (now w1 - s) e)))
         else establish_loop pipe_name t s (time_sleep (1 / 10) w1)))
   \<and> (establish_named_pipe_connection pipe_name t w
         = (w', Some (Inl (NamedPipeTimeoutError d e'))) \<longrightarrow>
      t < d \<and> (winerror e' = ERROR_FILE_NOT_FOUND \<or> winerror e' = ERROR_PIPE_BUSY)
      \<and> now w' = now w + d + 1 / 10)
   \<and> (opens w \<noteq> []
      \<and> (\<forall>(dt, r) \<in> set (opens w). dt \<le> \<delta>
            \<and> (\<exists>x. r = Inl x \<and> (winerror x = ERROR_FILE_NOT_FOUND \<or> winerror x = ERROR_PIPE_BUSY)))
      \<and> sum_list (map fst (opens w)) + real (length (opens w)) / 10 > t + 1 / 10 \<longrightarrow>
      (\<exists>w'' d' x. establish_named_pipe_connection pipe_name t w
                    = (w'', Some (Inl (NamedPipeTimeoutError d' x)))
         \<and> t < d' \<and> d' \<le> max t 0 + 1 / 10 + \<delta> \<and> now w'' = now w + d' + 1 / 10))"
proof (intro conjI impI)
  assume "win32file_CreateFile pipe_name w = Some (w1, Inl e)
      \<and> (winerror e = ERROR_FILE_NOT_FOUND \<or> winerror e = ERROR_PIPE_BUSY)"
  then show "establish_loop pipe_name t s w =
        (if now w1 - s > t
         then (time_sleep (1 / 10) w1, Some (Inl (NamedPipeTimeoutError (now w1 - s) e)))
         else establish_loop pipe_name t s (time_sleep (1 / 10) w1))"
    using establish_loop_transient by blast
next
  assume a: "establish_named_pipe_connection pipe_name t w
         = (w', Some (Inl (NamedPipeTimeoutError d e')))"
  have "establish_loop pipe_name t (now w) w = (w', Some (Inl (NamedPipeTimeoutError d e')))"
    using a
    by (auto simp: establish_named_pipe_connection_def win32pipe_SetNamedPipeHandleState_def
             split: prod.splits option.splits sum.splits)
  from establish_loop_timeout [OF this]
  show "t < d" "winerror e' = ERROR_FILE_NOT_FOUND \<or> winerror e' = ERROR_PIPE_BUSY"
    "now w' = now w + d + 1 / 10" by simp_all
next
  assume a: "opens w \<noteq> []
      \<and> (\<forall>(dt, r) \<in> set (opens w). dt \<le> \<delta>
            \<and> (\<exists>x. r = Inl x \<and> (winerror x = ERROR_FILE_NOT_FOUND \<or> winerror x = ERROR_PIPE_BUSY)))
      \<and> sum_list (map fst (opens w)) + real (length (opens w)) / 10 > t + 1 / 10"
  then have "\<exists>w'' d' x. establish_loop pipe_name t (now w) w
                 = (w'', Some (Inl (NamedPipeTimeoutError d' x)))
           \<and> d' \<le> max t 0 + 1 / 10 + \<delta>"
    by (intro establish_loop_never_connectable) simp_all
  then obtain w'' d' x where r: "establish_loop pipe_name t (now w) w
                 = (w'', Some (Inl (NamedPipeTimeoutError d' x)))"
    and d': "d' \<le> max t 0 + 1 / 10 + \<delta>" by blast
  from establish_loop_timeout [OF r] have "t < d'" "now w'' = now w + d' + 1 / 10" by simp_all
  with establish_passes_failure [OF r] d'
  show "\<exists>w'' d' x. establish_named_pipe_connection pipe_name t w
                    = (w'', Some (Inl (NamedPipeTimeoutError d' x)))
         \<and> t < d' \<and> d' \<le> max t 0 + 1 / 10 + \<delta> \<and> now w'' = now w + d' + 1 / 10"
    by blast
qed

theorem timeout_after_measured_elapsed_witness:
  "\<exists>w'' d' x. establish_named_pipe_connection (py ''p'') (3 / 20)
       \<lparr>now = 0,
        opens = [(0, Inl \<lparr>winerror = 2, funcname = py ''CreateFile'', strerror = py ''not found''\<rparr>),
                 (0, Inl \<lparr>winerror = 231, funcname = py ''CreateFile'', strerror = py ''busy''\<rparr>),
                 (0, Inl \<lparr>winerror = 2, funcname = py ''CreateFile'', strerror = py ''not found''\<rparr>)],
        set_state = None, writes = None, reads = [], trace = []\<rparr>
       = (w'', Some (Inl (NamedPipeTimeoutError d' x)))
     \<and> 3 / 20 < d' \<and> d' \<le> 1 / 4 \<and> now w'' = d' + 1 / 10"
  using timeout_after_measured_elapsed [THEN conjunct2, THEN conjunct2, rule_format, of
       "\<lparr>now = 0,
        opens = [(0, Inl \<lparr>winerror = 2, funcname = py ''CreateFile'', strerror = py ''not found''\<rparr>),
                 (0, Inl \<lparr>winerror = 231, funcname = py ''CreateFile'', strerror = py ''busy''\<rparr>),
                 (0, Inl \<lparr>winerror = 2, funcname = py ''CreateFile'', strerror = py ''not found''\<rparr>)],
        set_state = None, writes = None, reads = [], trace = []\<rparr>" 0 "3 / 20" "py ''p''"]
  by (simp add: ERROR_FILE_NOT_FOUND_def ERROR_PIPE_BUSY_def)

text \<open>
  The claim as stated, with the elapsed time taken again after the sleep, fails: with a
  timeout of 50 ms and a first attempt that fails at once, the elapsed time after the
  sleep is 100 ms, above the timeout, and yet the loop tries again and connects.
\<close>

theorem timeout_recomputed_after_sleep_counterexample:
  "establish_named_pipe_connection (py ''p'') (1 / 20)
     \<lparr>now = 0,
      opens = [(0, Inl \<lparr>winerror = 2, funcname = py ''CreateFile'', strerror = py ''not found''\<rparr>),
               (0, Inr 7)],
      set_state = None, writes = None, reads = [], trace = []\<rparr>
   = (\<lparr>now = 1 / 10, opens = [], set_state = None, writes = None, reads = [],
       trace = [CreateFile (py ''p''), Sleep (1 / 10), CreateFile (py ''p''),
                SetNamedPipeHandleState 7]\<rparr>,
      Some (Inr 7))
   \<and> win32file_CreateFile (py ''p'')
       \<lparr>now = 0,
        opens = [(0, Inl \<lparr>winerror = 2, funcname = py ''CreateFile'', strerror = py ''not found''\<rparr>),
                 (0, Inr 7)],
        set_state = None, writes = None, reads = [], trace = []\<rparr>
     = Some (\<lparr>now = 0, opens = [(0, Inr 7)], set_state = None, writes = None, reads = [],
             trace = [CreateFile (py ''p'')]\<rparr>,
            Inl \<lparr>winerror = 2, funcname = py ''CreateFile'', strerror = py ''not found''\<rparr>)
   \<and> now (time_sleep (1 / 10)
        \<lparr>now = 0, opens = [(0, Inr 7)], set_state = None, writes = None, reads = [],
         trace = [CreateFile (py ''p'')]\<rparr>) - 0 > (1 / 20 :: real)"
  by (simp add: establish_named_pipe_connection_def establish_loop.simps win32file_CreateFile_def
        win32pipe_SetNamedPipeHandleState_def time_sleep_def emit_def
        ERROR_FILE_NOT_FOUND_def ERROR_PIPE_BUSY_def)

subsection \<open>The read loop\<close>

lemma read_loop_blocked:
  "win32file_ReadFile h bufsize w = None \<Longrightarrow> read_loop bufsize h data_parts w = (w, None)"
  by (subst read_loop.simps) simp

lemma read_loop_raises:
  "win32file_ReadFile h bufsize w = Some (w1, Inl e) \<Longrightarrow>
     read_loop bufsize h data_parts w
       = (w1, Some (Inl (handle_pipe_exception (Some (pywintypes_error e)) e)))"
  by (subst read_loop.simps) simp

lemma read_loop_undecodable:
  "win32file_ReadFile h bufsize w = Some (w1, Inr (return_code, data)) \<Longrightarrow>
   utf8_decode data = None \<Longrightarrow>
     read_loop bufsize h data_parts w = (w1, Some (Inl UnicodeDecodeError))"
  by (subst read_loop.simps) simp

lemma read_loop_chunk:
  "win32file_ReadFile h bufsize w = Some (w1, Inr (return_code, data)) \<Longrightarrow>
   utf8_decode data = Some s \<Longrightarrow>
     read_loop bufsize h data_parts w =
       (if return_code = ERROR_MORE_DATA then read_loop bufsize h (data_parts @ [s]) w1
        else if return_code = NO_ERROR then (w1, Some (Inr (concat (data_parts @ [s]))))
        else (w1, Some (Inl (IOError return_code))))"
  by (subst read_loop.simps) simp

lemma ReadFile_Cons:
  "reads w = r # rest \<Longrightarrow>
     win32file_ReadFile h bufsize w
       = Some (w\<lparr>reads := rest, trace := trace w @ [ReadFile h bufsize]\<rparr>, r)"
  by (simp add: win32file_ReadFile_def emit_def)

lemma ReadFile_Nil: "reads w = [] \<Longrightarrow> win32file_ReadFile h bufsize w = None"
  by (simp add: win32file_ReadFile_def)

lemma read_loop_deliver:
  assumes "reads w = deliver chunks @ rest" and "chunks \<noteq> []"
    and "those (map utf8_decode chunks) = Some parts"
  shows "read_loop bufsize h data_parts w
           = (w\<lparr>reads := rest,
                trace := trace w @ replicate (length chunks) (ReadFile h bufsize)\<rparr>,
              Some (Inr (concat (data_parts @ parts))))"
  using assms
proof (induction chunks arbitrary: w data_parts parts rule: deliver.induct)
  case 1
  then show ?case by simp
next
  case (2 c)
  then obtain s where s: "utf8_decode c = Some s" and parts: "parts = [s]"
    by (auto split: option.splits)
  have rf: "win32file_ReadFile h bufsize w
      = Some (w\<lparr>reads := rest, trace := trace w @ [ReadFile h bufsize]\<rparr>, Inr (NO_ERROR, c))"
    using "2.prems"(1) by (simp add: ReadFile_Cons)
  show ?case
    using read_loop_chunk [OF rf s, of data_parts] parts
    by (simp add: NO_ERROR_def ERROR_MORE_DATA_def)
next
  case (3 c d cs)
  from "3.prems"(3) obtain s ps where s: "utf8_decode c = Some s"
    and ps: "those (map utf8_decode (d # cs)) = Some ps" and parts: "parts = s # ps"
    by (auto split: option.splits)
  let ?w1 = "w\<lparr>reads := deliver (d # cs) @ rest, trace := trace w @ [ReadFile h bufsize]\<rparr>"
  have rf: "win32file_ReadFile h bufsize w = Some (?w1, Inr (ERROR_MORE_DATA, c))"
    using "3.prems"(1) by (simp add: ReadFile_Cons)
  have step: "read_loop bufsize h data_parts w = read_loop bufsize h (data_parts @ [s]) ?w1"
    using read_loop_chunk [OF rf s, of data_parts] by simp
  have "read_loop bufsize h (data_parts @ [s]) ?w1
          = (?w1\<lparr>reads := rest,
                  trace := trace ?w1 @ replicate (length (d # cs)) (ReadFile h bufsize)\<rparr>,
             Some (Inr (concat ((data_parts @ [s]) @ ps))))"
    by (rule "3.IH" [OF _ _ ps]) simp_all
  with step parts show ?case
    by (simp add: replicate_append_same)
qed



lemma read_loop_frame:
  "read_loop bufsize h data_parts w = (w', r) \<Longrightarrow>
     (\<exists>k. trace w' = trace w @ replicate k (ReadFile h bufsize))"
proof (induction "reads w" arbitrary: w data_parts)
  case Nil
  then have "win32file_ReadFile h bufsize w = None" by (simp add: ReadFile_Nil)
  from read_loop_blocked [OF this, of data_parts] Nil.prems
  have "w' = w" by simp
  then show ?case by (intro exI [of _ 0]) simp
next
  case (Cons x rest)
  let ?w1 = "w\<lparr>reads := rest, trace := trace w @ [ReadFile h bufsize]\<rparr>"
  have rf: "win32file_ReadFile h bufsize w = Some (?w1, x)"
    using Cons.hyps(2) by (simp add: ReadFile_Cons)
  have one: "trace ?w1 = trace w @ replicate 1 (ReadFile h bufsize)" by simp
  show ?case
  proof (cases x)
    case (Inl e)
    with read_loop_raises [OF rf [unfolded Inl], of data_parts] Cons.prems
    have "w' = ?w1" by simp
    with one show ?thesis by blast
  next
    case (Inr cd)
    obtain c data where cd: "cd = (c, data)" by (cases cd)
    show ?thesis
    proof (cases "utf8_decode data")
      case None
      with read_loop_undecodable [OF rf [unfolded Inr cd], of data_parts] Cons.prems
      have "w' = ?w1" by simp
      with one show ?thesis by blast
    next
      case (Some s)
      note step = read_loop_chunk [OF rf [unfolded Inr cd] Some, of data_parts]
      show ?thesis
      proof (cases "c = ERROR_MORE_DATA")
        case True
        with step Cons.prems
        have "read_loop bufsize h (data_parts @ [s]) ?w1 = (w', r)" by simp
        moreover have "rest = reads ?w1" by simp
        ultimately obtain k where "trace w' = trace ?w1 @ replicate k (ReadFile h bufsize)"
          using Cons.hyps(1) by blast
        then have "trace w' = trace w @ replicate (Suc k) (ReadFile h bufsize)"
          by (simp add: replicate_append_same)
        then show ?thesis by blast
      next
        case False
        with step Cons.prems have "w' = ?w1" by (auto split: if_splits)
        with one show ?thesis by blast
      qed
    qed
  qed
qed

subsection \<open>What establishing the connection and the exchange leave untouched\<close>




lemma write_to_pipe_ascii:
  "is_ascii msg \<Longrightarrow>
     write_to_pipe h msg w
       = (emit (WriteFile h (map of_nat msg)) w,
          case writes w of
            None \<Rightarrow> Inr ()
          | Some e \<Rightarrow> Inl (handle_pipe_exception (Some (pywintypes_error e)) e))"
  by (simp add: write_to_pipe_def utf8_encode_ascii win32file_WriteFile_def split: option.splits)

lemma exchange_ok:
  assumes "request_message method path params json_body = Some msg"
  shows "exchange bufsize h method path params json_body w =
     (case writes w of
        Some e \<Rightarrow> (emit (WriteFile h (map of_nat msg)) w,
                   Some (Inl (handle_pipe_exception (Some (pywintypes_error e)) e)))
      | None \<Rightarrow> read_from_pipe bufsize h (emit (WriteFile h (map of_nat msg)) w))"
  using assms write_to_pipe_ascii [OF request_message_ascii [OF assms], of h w]
  by (simp add: exchange_def split: option.splits)


lemma exchange_trace:
  assumes "exchange bufsize h method path params json_body w = (w', r)"
  shows "\<exists>evs. trace w' = trace w @ evs \<and> (\<forall>ev \<in> set evs. \<forall>h'. ev \<noteq> CloseHandle h')"
proof (cases "request_message method path params json_body")
  case None
  with assms have "w' = w" by (simp add: exchange_def)
  then show ?thesis by (intro exI [of _ "[]"]) simp
next
  case (Some msg)
  show ?thesis
  proof (cases "writes w")
    case (Some x)
    with exchange_ok [OF \<open>request_message method path params json_body = Some msg\<close>, of bufsize h w] assms
    have "trace w' = trace w @ [WriteFile h (map of_nat msg)]" by (auto simp: emit_def)
    then show ?thesis by (intro exI [of _ "[WriteFile h (map of_nat msg)]"]) simp
  next
    case None
    with exchange_ok [OF \<open>request_message method path params json_body = Some msg\<close>, of bufsize h w] assms
    have "read_loop bufsize h [] (emit (WriteFile h (map of_nat msg)) w) = (w', r)"
      by (simp add: read_from_pipe_def)
    from read_loop_frame [OF this] obtain k where
      "trace w' = trace w @ WriteFile h (map of_nat msg) # replicate k (ReadFile h bufsize)"
      by (auto simp: emit_def)
    then show ?thesis
      by (intro exI [of _ "WriteFile h (map of_nat msg) # replicate k (ReadFile h bufsize)"]) auto
  qed
qed

lemma send_closes_once:
  assumes "establish_named_pipe_connection pipe_name t w = (w1, Some (Inr h))"
    and "send_named_pipe_request json_loads bufsize pipe_name t method path params json_body w
           = (w', Some r)"
  shows "\<exists>evs. trace w' = trace w1 @ evs @ [CloseHandle h]
           \<and> (\<forall>ev \<in> set evs. \<forall>h'. ev \<noteq> CloseHandle h')"
proof -
  obtain w2 r2 where ex: "exchange bufsize h method path params json_body w1 = (w2, r2)"
    by (cases "exchange bufsize h method path params json_body w1")
  from assms ex have "w' = handle_close h w2"
    by (auto simp: send_named_pipe_request_def split: option.splits sum.splits)
  with exchange_trace [OF ex] show ?thesis by (auto simp: handle_close_def emit_def)
qed

subsection \<open>The whole request\<close>







text \<open>
  C9 fails on the code. Once \<open>establish_named_pipe_connection\<close> has returned the
  handle, a request that returns or raises closes it exactly once, as its last call
  (\<open>send_closes_once\<close>). But the handle is opened earlier, by \<open>CreateFile\<close>; when
  \<open>SetNamedPipeHandleState\<close> then raises, the error leaves
  \<open>establish_named_pipe_connection\<close> before the \<open>try\<close> block of the request is
  entered, and no \<open>close\<close> is called: the trace ends with the failed call.
\<close>

theorem handle_left_open_when_message_mode_fails:
  "send_named_pipe_request json_loads bufsize (py ''p'') 1 (py ''GET'') (py ''/status'') None None
     \<lparr>now = 0, opens = [(0, Inr 7)],
      set_state = Some \<lparr>winerror = 5, funcname = py ''SetNamedPipeHandleState'',
                        strerror = py ''Access is denied.''\<rparr>,
      writes = None, reads = [], trace = []\<rparr>
   = (\<lparr>now = 0, opens = [],
       set_state = Some \<lparr>winerror = 5, funcname = py ''SetNamedPipeHandleState'',
                         strerror = py ''Access is denied.''\<rparr>,
       writes = None, reads = [],
       trace = [CreateFile (py ''p''), SetNamedPipeHandleState 7]\<rparr>,
      Some (Inl (pywintypes_error \<lparr>winerror = 5, funcname = py ''SetNamedPipeHandleState'',
                                   strerror = py ''Access is denied.''\<rparr>)))"
  by (simp add: send_named_pipe_request_def establish_named_pipe_connection_def
        establish_loop.simps win32file_CreateFile_def win32pipe_SetNamedPipeHandleState_def
        emit_def)

subsection \<open>A character cut by a chunk boundary\<close>

lemma decode_units_truncated: "decode_units (replicate k 0x61 @ [0xC3]) = None"
  by (induction k) (simp_all add: decode_units_1, simp add: decode_units.simps)

lemma decode_units_e_acute:
  "decode_units (replicate k 0x61 @ [0xC3, 0xA9] @ r) = map_option (\<lambda>s. replicate k 0x61 @ 0xE9 # s) (decode_units r)"
proof (induction k)
  case 0
  have "decode_units (0xC3 # 0xA9 # r) = map_option ((#) 0xE9) (decode_units r)"
    using decode_units_2 [of "0xE9" r] by simp
  then show ?case by (simp add: option.map_comp comp_def)
next
  case (Suc k)
  then show ?case by (simp add: decode_units_1 option.map_comp comp_def)
qed

lemma encode_units_e_acute:
  "encode_units (replicate k 0x61 @ [0xE9]) = Some (replicate k 0x61 @ [0xC3, 0xA9])"
  by (induction k) (simp_all add: encode_code_point_def)

lemma message_chunks_two:
  assumes "0 < n" and "length a = n" and "length b \<le> n"
  shows "message_chunks n (a @ b) = (if b = [] then [a] else [a, b])"
proof (cases "b = []")
  case True
  with assms show ?thesis by (simp add: message_chunks.simps [of n a])
next
  case False
  with assms have "message_chunks n (a @ b) = a # message_chunks n b"
    by (subst message_chunks.simps) simp
  with assms False show ?thesis by (simp add: message_chunks.simps [of n b])
qed

text \<open>
  C1 fails on the code. For every buffer size \<open>n\<close> of at least two octets, the reply
  made of a quote, \<open>n - 2\<close> letters, an e acute and a quote (a JSON string,
  well-formed JSON in UTF-8) is cut by reads of \<open>n\<close> octets between the two octets of the e acute. The
  first chunk is decoded on its own and the request fails with a UnicodeDecodeError,
  whatever \<open>json.loads\<close> would make of the whole reply.
\<close>

theorem reply_split_inside_character:
  assumes "2 \<le> n"
    and "establish_named_pipe_connection pipe_name t w = (w1, Some (Inr h))"
    and "request_message method path params json_body = Some msg"
    and "writes w1 = None"
    and "reads w1 = deliver (message_chunks n (0x22 # replicate (n - 2) 0x61 @ [0xC3, 0xA9, 0x22]))"
  shows "utf8_decode (0x22 # replicate (n - 2) 0x61 @ [0xC3, 0xA9, 0x22])
           = Some (0x22 # replicate (n - 2) 0x61 @ [0xE9, 0x22])
       \<and> snd (send_named_pipe_request json_loads n pipe_name t method path params json_body w)
           = Some (Inl UnicodeDecodeError)"
proof
  have "decode_units (0x22 # replicate (n - 2) 0x61 @ [0xC3, 0xA9] @ [0x22])
          = Some (0x22 # replicate (n - 2) 0x61 @ [0xE9, 0x22])"
    by (simp add: decode_units_1 decode_units_e_acute del: append.simps)
  then show "utf8_decode (0x22 # replicate (n - 2) 0x61 @ [0xC3, 0xA9, 0x22])
           = Some (0x22 # replicate (n - 2) 0x61 @ [0xE9, 0x22])"
    by (simp add: utf8_decode_def)
next
  let ?a = "0x22 # replicate (n - 2) 0x61 @ [0xC3] :: pybytes"
  let ?b = "[0xA9, 0x22] :: pybytes"
  let ?w = "emit (WriteFile h (map of_nat msg)) w1"
  have "message_chunks n (?a @ ?b) = [?a, ?b]"
    using assms(1) by (subst message_chunks_two) simp_all
  with assms(5) have rd: "reads ?w = [Inr (ERROR_MORE_DATA, ?a), Inr (NO_ERROR, ?b)]"
    by (simp add: emit_def)
  have un: "utf8_decode ?a = None"
    using decode_units_truncated [of "n - 2"] by (simp add: utf8_decode_def decode_units_1)
  have "read_loop n h [] ?w
          = (?w\<lparr>reads := [Inr (NO_ERROR, ?b)], trace := trace ?w @ [ReadFile h n]\<rparr>,
             Some (Inl UnicodeDecodeError))"
    by (rule read_loop_undecodable [OF ReadFile_Cons [OF rd] un])
  then have "snd (exchange n h method path params json_body w1) = Some (Inl UnicodeDecodeError)"
    using exchange_ok [OF assms(3), of n h w1] assms(4) by (simp add: read_from_pipe_def)
  then show "snd (send_named_pipe_request json_loads n pipe_name t method path params json_body w)
           = Some (Inl UnicodeDecodeError)"
    using assms(2)
    by (cases "exchange n h method path params json_body w1")
       (simp add: send_named_pipe_request_def)
qed

theorem reply_split_inside_character_witness:
  "utf8_decode [0x22, 0x61, 0xC3, 0xA9, 0x22] = Some [0x22, 0x61, 0xE9, 0x22]
   \<and> snd (send_named_pipe_request
            (\<lambda>s. if s = [0x22, 0x61, 0xE9, 0x22] then Some (JStr [0x61, 0xE9]) else None)
            3 (py ''p'') 1 (py ''GET'') (py ''/status'') None None
            \<lparr>now = 0, opens = [(0, Inr 7)], set_state = None, writes = None,
             reads = [Inr (234, [0x22, 0x61, 0xC3]), Inr (0, [0xA9, 0x22])], trace = []\<rparr>)
       = Some (Inl UnicodeDecodeError)"
proof -
  let ?W = "\<lparr>now = 0, opens = [(0::real, Inr (7::nat))], set_state = None, writes = None,
             reads = [Inr (234, [0x22, 0x61, 0xC3]), Inr (0, [0xA9, 0x22])], trace = []\<rparr>"
  let ?W1 = "fst (establish_named_pipe_connection (py ''p'') 1 ?W)"
  have n: "(2::nat) \<le> 3" by simp
  have est: "establish_named_pipe_connection (py ''p'') 1 ?W = (?W1, Some (Inr 7))"
    by (simp add: establish_named_pipe_connection_def establish_loop.simps
          win32file_CreateFile_def win32pipe_SetNamedPipeHandleState_def emit_def)
  have req: "request_message (py ''GET'') (py ''/status'') None None
               = Some (the (request_message (py ''GET'') (py ''/status'') None None))"
    by (simp add: request_message_def message_dict_def)
  have wr: "writes ?W1 = None"
    by (simp add: establish_named_pipe_connection_def establish_loop.simps
          win32file_CreateFile_def win32pipe_SetNamedPipeHandleState_def emit_def)
  have rd: "reads ?W1 = deliver (message_chunks 3 (0x22 # replicate (3 - 2) 0x61 @ [0xC3, 0xA9, 0x22]))"
    by (simp add: establish_named_pipe_connection_def establish_loop.simps
          win32file_CreateFile_def win32pipe_SetNamedPipeHandleState_def emit_def
          message_chunks.simps ERROR_MORE_DATA_def NO_ERROR_def)
  from reply_split_inside_character [OF n est req wr rd]
  show ?thesis by simp
qed

text \<open>
  C6 fails on the code. For every buffer size \<open>n\<close> of at least one octet, the message
  of \<open>n - 1\<close> letters and an e acute is written in one call as \<open>n + 1\<close> octets; read
  back with a buffer of \<open>n\<close> octets it comes in two chunks, the first of which ends
  inside the e acute, and \<open>read_from_pipe\<close> raises a UnicodeDecodeError instead of
  returning the message, although the octets written decode to the message.
\<close>

theorem message_split_inside_character:
  assumes "1 \<le> n"
    and "writes w = None"
    and "reads wr = deliver (message_chunks n (replicate (n - 1) 0x61 @ [0xC3, 0xA9]))"
  shows "write_to_pipe h (replicate (n - 1) 0x61 @ [0xE9]) w
           = (emit (WriteFile h (replicate (n - 1) 0x61 @ [0xC3, 0xA9])) w, Inr ())
       \<and> utf8_decode (replicate (n - 1) 0x61 @ [0xC3, 0xA9]) = Some (replicate (n - 1) 0x61 @ [0xE9])
       \<and> snd (read_from_pipe n h' wr) = Some (Inl UnicodeDecodeError)"
proof (intro conjI)
  have "utf8_encode (replicate (n - 1) 0x61 @ [0xE9]) = Some (replicate (n - 1) 0x61 @ [0xC3, 0xA9])"
    by (simp add: utf8_encode_def encode_units_e_acute)
  then show "write_to_pipe h (replicate (n - 1) 0x61 @ [0xE9]) w
           = (emit (WriteFile h (replicate (n - 1) 0x61 @ [0xC3, 0xA9])) w, Inr ())"
    using assms(2) by (simp add: write_to_pipe_def win32file_WriteFile_def)
  show "utf8_decode (replicate (n - 1) 0x61 @ [0xC3, 0xA9]) = Some (replicate (n - 1) 0x61 @ [0xE9])"
    using decode_units_e_acute [of "n - 1" "[]"] by (simp add: utf8_decode_def)
  let ?a = "replicate (n - 1) 0x61 @ [0xC3] :: pybytes"
  let ?b = "[0xA9] :: pybytes"
  have "message_chunks n (?a @ ?b) = [?a, ?b]"
    using assms(1) by (subst message_chunks_two) simp_all
  with assms(3) have rd: "reads wr = [Inr (ERROR_MORE_DATA, ?a), Inr (NO_ERROR, ?b)]"
    by simp
  have un: "utf8_decode ?a = None"
    using decode_units_truncated [of "n - 1"] by (simp add: utf8_decode_def)
  have "read_loop n h' [] wr
          = (wr\<lparr>reads := [Inr (NO_ERROR, ?b)], trace := trace wr @ [ReadFile h' n]\<rparr>,
             Some (Inl UnicodeDecodeError))"
    by (rule read_loop_undecodable [OF ReadFile_Cons [OF rd] un])
  then show "snd (read_from_pipe n h' wr) = Some (Inl UnicodeDecodeError)"
    by (simp add: read_from_pipe_def)
qed

theorem message_split_inside_character_witness:
  "write_to_pipe 7 [0x61, 0x61, 0xE9]
       \<lparr>now = 0, opens = [], set_state = None, writes = None, reads = [], trace = []\<rparr>
     = (\<lparr>now = 0, opens = [], set_state = None, writes = None, reads = [],
         trace = [WriteFile 7 [0x61, 0x61, 0xC3, 0xA9]]\<rparr>, Inr ())
   \<and> utf8_decode [0x61, 0x61, 0xC3, 0xA9] = Some [0x61, 0x61, 0xE9]
   \<and> snd (read_from_pipe 3 8
       \<lparr>now = 0, opens = [], set_state = None, writes = None,
        reads = [Inr (234, [0x61, 0x61, 0xC3]), Inr (0, [0xA9])], trace = []\<rparr>)
     = Some (Inl UnicodeDecodeError)"
proof -
  let ?W = "\<lparr>now = 0::real, opens = [], set_state = None, writes = None, reads = [], trace = []\<rparr>"
  let ?R = "\<lparr>now = 0::real, opens = [], set_state = None, writes = None,
        reads = [Inr (234, [0x61, 0x61, 0xC3]), Inr (0, [0xA9])], trace = []\<rparr>"
  have n: "(1::nat) \<le> 3" by simp
  have wr: "writes ?W = None" by simp
  have rd: "reads ?R = deliver (message_chunks 3 (replicate (3 - 1) 0x61 @ [0xC3, 0xA9]))"
    by (simp add: message_chunks.simps ERROR_MORE_DATA_def NO_ERROR_def numeral_2_eq_2)
  from message_split_inside_character [OF n wr rd, of 7 8]
  show ?thesis by (simp add: emit_def numeral_2_eq_2)
qed

subsection \<open>What holds of the reassembly\<close>

text \<open>
  Where every chunk is valid UTF-8 on its own the reader returns the decoded chunks in
  order: a message that arrives in one chunk is read back as written, an ASCII message
  is read back as written however it is cut, and the request returns what \<open>json.loads\<close>
  makes of the reassembled reply.
\<close>

lemma read_from_pipe_reassembles:
  assumes "reads w = deliver chunks @ rest" and "chunks \<noteq> []"
    and "those (map utf8_decode chunks) = Some parts"
  shows "read_from_pipe bufsize h w
           = (w\<lparr>reads := rest,
                trace := trace w @ replicate (length chunks) (ReadFile h bufsize)\<rparr>,
              Some (Inr (concat parts)))"
  using read_loop_deliver [OF assms, of bufsize h "[]"] by (simp add: read_from_pipe_def)

lemma round_trip_one_chunk:
  assumes "utf8_encode message = Some bs" and "reads w = Inr (NO_ERROR, bs) # rest"
  shows "snd (read_from_pipe bufsize h w) = Some (Inr message)"
proof -
  have "reads w = deliver [bs] @ rest" using assms(2) by simp
  moreover have "those (map utf8_decode [bs]) = Some [message]"
    using utf8_roundtrip [OF assms(1)] by simp
  ultimately show ?thesis
    using read_from_pipe_reassembles [of w "[bs]" rest "[message]" bufsize h] by simp
qed

lemma utf8_decode_ascii_octets:
  "list_all (\<lambda>b. unat b < 128) c \<Longrightarrow> utf8_decode c = Some (map unat c)"
  by (simp add: utf8_decode_def decode_units_ascii is_ascii_def list_all_iff)

lemma those_decode_ascii_chunks:
  "list_all (\<lambda>b. unat b < 128) (concat chunks) \<Longrightarrow>
     those (map utf8_decode chunks) = Some (map (map unat) chunks)"
  by (induction chunks) (simp_all add: utf8_decode_ascii_octets)

lemma round_trip_ascii:
  assumes "is_ascii message" and "concat chunks = map of_nat message" and "chunks \<noteq> []"
    and "reads w = deliver chunks @ rest"
  shows "utf8_encode message = Some (concat chunks)
       \<and> snd (read_from_pipe bufsize h w) = Some (Inr message)"
proof
  show "utf8_encode message = Some (concat chunks)"
    using assms(1,2) by (simp add: utf8_encode_ascii)
  have lt: "\<And>c. c \<in> set message \<Longrightarrow> c < 256"
    using assms(1) by (auto simp: is_ascii_def list_all_iff)
  have octets: "map unat (concat chunks) = message"
    unfolding assms(2) using lt by (rule unat_of_nat_octets)
  have "list_all (\<lambda>b. unat b < 128) (concat chunks)"
  proof -
    have "list_all (\<lambda>c. c < 128) (map unat (concat chunks))"
      using assms(1) unfolding octets by (simp add: is_ascii_def)
    then show ?thesis by (simp add: list_all_iff)
  qed
  from those_decode_ascii_chunks [OF this]
  have "read_from_pipe bufsize h w
           = (w\<lparr>reads := rest,
                trace := trace w @ replicate (length chunks) (ReadFile h bufsize)\<rparr>,
              Some (Inr (concat (map (map unat) chunks))))"
    by (rule read_from_pipe_reassembles [OF assms(4,3)])
  moreover have "concat (map (map unat) chunks) = message"
    using octets by (simp add: map_concat)
  ultimately show "snd (read_from_pipe bufsize h w) = Some (Inr message)" by simp
qed

lemma send_returns_parsed:
  assumes "establish_named_pipe_connection pipe_name t w = (w1, Some (Inr h))"
    and "request_message method path params json_body = Some msg"
    and "writes w1 = None"
    and "reads w1 = deliver chunks @ rest" and "chunks \<noteq> []"
    and "those (map utf8_decode chunks) = Some parts"
    and "json_loads (concat parts) = Some v"
  shows "snd (send_named_pipe_request json_loads bufsize pipe_name t method path params
                json_body w) = Some (Inr v)"
proof -
  let ?w = "emit (WriteFile h (map of_nat msg)) w1"
  have "reads ?w = deliver chunks @ rest" using assms(4) by (simp add: emit_def)
  from read_from_pipe_reassembles [OF this assms(5,6), of bufsize h]
  have "snd (exchange bufsize h method path params json_body w1) = Some (Inr (concat parts))"
    using exchange_ok [OF assms(2), of bufsize h w1] assms(3) by simp
  then show ?thesis
    using assms(1,7)
    by (cases "exchange bufsize h method path params json_body w1")
       (simp add: send_named_pipe_request_def)
qed

end
